theory Spec2Isabelle
  imports Complex_Main
begin

section \<open>Floating-point values and Python exceptions\<close>

text \<open>
  The program computes with IEEE doubles (Python \<open>float\<close>, numpy \<open>float64\<close>).
  The embedding reads a finite double as the real number it stands for and keeps the three
  special values that the program's own arithmetic can produce from finite inputs: the two
  infinities and NaN. Signed zeros are not distinguished; a zero is treated as \<open>+0.0\<close>.

  Rounding to the nearest double is written out (\<open>rd\<close> below) where it decides what the
  program does next: where a double is converted to an integer, where it is compared with
  zero before a division that can raise, and where it can leave the range of the doubles.
  In the array arithmetic of the curve and of the price, where a rounding only moves a
  value by a relative \<open>2^-53\<close>, the operations are those of the real numbers.
\<close>

datatype fl = Fin real | PInf | NInf | NaN

datatype exn = ValueError | IndexError | TypeError | ZeroDivisionError | OverflowError

fun is_Fin :: "fl \<Rightarrow> bool" where
  "is_Fin (Fin r) = True"
| "is_Fin _ = False"

fun the_Fin :: "fl \<Rightarrow> real" where
  "the_Fin (Fin r) = r"
| "the_Fin _ = 0"

fun fl_neg :: "fl \<Rightarrow> fl" where
  "fl_neg (Fin a) = Fin (- a)"
| "fl_neg PInf = NInf"
| "fl_neg NInf = PInf"
| "fl_neg NaN = NaN"

fun fl_add :: "fl \<Rightarrow> fl \<Rightarrow> fl" where
  "fl_add (Fin a) (Fin b) = Fin (a + b)"
| "fl_add NaN _ = NaN"
| "fl_add _ NaN = NaN"
| "fl_add PInf NInf = NaN"
| "fl_add NInf PInf = NaN"
| "fl_add PInf _ = PInf"
| "fl_add _ PInf = PInf"
| "fl_add NInf _ = NInf"
| "fl_add _ NInf = NInf"

definition fl_sub :: "fl \<Rightarrow> fl \<Rightarrow> fl" where
  "fl_sub a b = fl_add a (fl_neg b)"

text \<open>The sign of an infinite product or quotient: \<open>True\<close> stands for \<open>+inf\<close>.\<close>

definition inf_of :: "bool \<Rightarrow> fl" where
  "inf_of pos = (if pos then PInf else NInf)"

fun fl_mul :: "fl \<Rightarrow> fl \<Rightarrow> fl" where
  "fl_mul (Fin a) (Fin b) = Fin (a * b)"
| "fl_mul NaN _ = NaN"
| "fl_mul _ NaN = NaN"
| "fl_mul (Fin a) PInf = (if a = 0 then NaN else inf_of (0 < a))"
| "fl_mul (Fin a) NInf = (if a = 0 then NaN else inf_of (a < 0))"
| "fl_mul PInf (Fin b) = (if b = 0 then NaN else inf_of (0 < b))"
| "fl_mul NInf (Fin b) = (if b = 0 then NaN else inf_of (b < 0))"
| "fl_mul PInf PInf = PInf"
| "fl_mul PInf NInf = NInf"
| "fl_mul NInf PInf = NInf"
| "fl_mul NInf NInf = PInf"

text \<open>
  Division as numpy performs it: dividing by zero raises nothing, it gives an infinity or
  NaN (with a warning only).
\<close>

fun fl_div :: "fl \<Rightarrow> fl \<Rightarrow> fl" where
  "fl_div (Fin a) (Fin b) =
     (if b \<noteq> 0 then Fin (a / b) else if a = 0 then NaN else inf_of (0 < a))"
| "fl_div NaN _ = NaN"
| "fl_div _ NaN = NaN"
| "fl_div (Fin a) PInf = Fin 0"
| "fl_div (Fin a) NInf = Fin 0"
| "fl_div PInf (Fin b) = inf_of (0 \<le> b)"
| "fl_div NInf (Fin b) = inf_of (b < 0)"
| "fl_div PInf PInf = NaN"
| "fl_div PInf NInf = NaN"
| "fl_div NInf PInf = NaN"
| "fl_div NInf NInf = NaN"

fun fl_exp :: "fl \<Rightarrow> fl" where
  "fl_exp (Fin a) = Fin (exp a)"
| "fl_exp PInf = PInf"
| "fl_exp NInf = Fin 0"
| "fl_exp NaN = NaN"

text \<open>
  \<open>x ** t\<close> for a numpy exponent \<open>t\<close> that is a finite double (C \<open>pow\<close>): a negative
  base has a real power only for an integral exponent, zero to a negative power is
  \<open>+inf\<close>, and anything to the power zero is one.
\<close>

fun np_pow :: "fl \<Rightarrow> real \<Rightarrow> fl" where
  "np_pow (Fin b) t =
     (if t \<in> \<int> then (if b = 0 \<and> t < 0 then PInf else Fin (b powi \<lfloor>t\<rfloor>))
      else if 0 < b then Fin (b powr t)
      else if b = 0 then (if 0 < t then Fin 0 else PInf)
      else NaN)"
| "np_pow PInf t = (if t = 0 then Fin 1 else if 0 < t then PInf else Fin 0)"
| "np_pow NInf t =
     (if t = 0 then Fin 1 else if t < 0 then Fin 0
      else if t \<in> \<int> \<and> odd \<lfloor>t\<rfloor> then NInf else PInf)"
| "np_pow NaN t = (if t = 0 then Fin 1 else NaN)"

text \<open>
  \<open>np.sum\<close>, \<open>ndarray.max\<close> (NaN propagates) and \<open>ndarray.mean\<close> of a 1-d array.
  numpy refuses the maximum of an empty array; the program takes a maximum only after it
  has read \<open>maturities[0]\<close>, so the empty case of \<open>np_max\<close> is never reached.
\<close>

definition np_sum :: "fl list \<Rightarrow> fl" where
  "np_sum xs = foldl fl_add (Fin 0) xs"

fun fl_max :: "fl \<Rightarrow> fl \<Rightarrow> fl" where
  "fl_max (Fin a) (Fin b) = Fin (max a b)"
| "fl_max NaN _ = NaN"
| "fl_max _ NaN = NaN"
| "fl_max PInf _ = PInf"
| "fl_max _ PInf = PInf"
| "fl_max NInf b = b"
| "fl_max a NInf = a"

fun np_max :: "fl list \<Rightarrow> fl" where
  "np_max [] = NaN"
| "np_max (x # xs) = foldl fl_max x xs"

definition np_mean :: "fl list \<Rightarrow> fl" where
  "np_mean xs = fl_div (np_sum xs) (Fin (real (length xs)))"

text \<open>\<open>np.diff\<close> of a 1-d array of finite doubles.\<close>

fun np_diff :: "real list \<Rightarrow> real list" where
  "np_diff (a # b # xs) = (b - a) # np_diff (b # xs)"
| "np_diff _ = []"


subsection \<open>Rounding to the nearest double\<close>

text \<open>Python's \<open>round\<close> of a float to an integer: a tie goes to the even neighbour.\<close>

definition py_round :: "real \<Rightarrow> int" where
  "py_round x =
     (let f = \<lfloor>x\<rfloor>; d = x - of_int f
      in if d < 1 / 2 then f else if 1 / 2 < d then f + 1 else if even f then f else f + 1)"

text \<open>
  IEEE 754 binary64, round to nearest, ties to even. A nonzero \<open>x\<close> with
  \<open>2^e \<le> |x| < 2^(e+1)\<close> is rounded to a multiple of \<open>2^(e-52)\<close> (53 significant bits);
  below the normal range, \<open>e < -1022\<close>, to a multiple of \<open>2^-1074\<close> (the subnormal
  doubles, and zero on underflow). \<open>rnd\<close> is this rounding without the upper limit of
  the exponent; \<open>rd\<close> gives an infinity when the rounded value reaches \<open>2^1024\<close>.
\<close>

definition rnd :: "real \<Rightarrow> real" where
  "rnd x =
     (if x = 0 then 0
      else let q = 2 powi (max \<lfloor>log 2 \<bar>x\<bar>\<rfloor> (- 1022) - 52)
           in of_int (py_round (x / q)) * q)"

definition rd :: "real \<Rightarrow> fl" where
  "rd x = (if 2 ^ 1024 \<le> \<bar>rnd x\<bar> then inf_of (0 < x) else Fin (rnd x))"

text \<open>
  Python's \<open>+\<close>, \<open>-\<close>, \<open>*\<close> and \<open>/\<close> on two \<open>float\<close>s: the exact result, rounded. An
  overflow gives an infinity and raises nothing; \<open>/\<close> raises \<open>ZeroDivisionError\<close> when
  the divisor is zero. \<open>x ** 2\<close> is C's \<open>pow\<close>, taken as the rounded square: an underflow
  gives zero and raises nothing, an overflow raises \<open>OverflowError\<close>.
\<close>

definition rounded :: "fl \<Rightarrow> fl" where
  "rounded v = (case v of Fin r \<Rightarrow> rd r | _ \<Rightarrow> v)"

definition py_add :: "fl \<Rightarrow> fl \<Rightarrow> fl" where
  "py_add a b = rounded (fl_add a b)"

definition py_sub :: "fl \<Rightarrow> fl \<Rightarrow> fl" where
  "py_sub a b = rounded (fl_sub a b)"

definition py_mul :: "fl \<Rightarrow> fl \<Rightarrow> fl" where
  "py_mul a b = rounded (fl_mul a b)"

definition py_div :: "fl \<Rightarrow> fl \<Rightarrow> exn + fl" where
  "py_div a b = (if b = Fin 0 then Inl ZeroDivisionError else Inr (rounded (fl_div a b)))"

definition py_square :: "fl \<Rightarrow> exn + fl" where
  "py_square a =
     (case a of
        Fin r \<Rightarrow> (case rd (r * r) of Fin s \<Rightarrow> Inr (Fin s) | _ \<Rightarrow> Inl OverflowError)
      | NaN \<Rightarrow> Inr NaN
      | _ \<Rightarrow> Inr PInf)"


section \<open>The yield curve (\<open>src/curve.py\<close>)\<close>

subsection \<open>Linear interpolation: \<open>np.interp\<close>\<close>

text \<open>
  \<open>np.interp(x, xp, fp)\<close> for a scalar \<open>x\<close> and increasing sample points \<open>xp\<close>: the
  value \<open>fp[0]\<close> to the left of the samples, \<open>fp[-1]\<close> from the last sample on, the
  sample value itself at a sample point, and otherwise the point on the straight line
  through the two bracketing samples, \<open>slope * (x - xp[j]) + fp[j]\<close>. It raises
  \<open>ValueError\<close> for no samples or for arrays of different lengths. The sample values of
  a curve built from finite inputs are finite or NaN; what numpy does between two samples
  of which one is infinite is not modelled.
\<close>

definition lin_interp :: "real \<Rightarrow> real \<Rightarrow> real \<Rightarrow> fl \<Rightarrow> fl \<Rightarrow> fl" where
  "lin_interp x x0 x1 f0 f1 =
     (let slope = fl_div (fl_sub f1 f0) (Fin (x1 - x0))
      in fl_add (fl_mul slope (Fin (x - x0))) f0)"

fun interp_from :: "real \<Rightarrow> real list \<Rightarrow> fl list \<Rightarrow> fl" where
  "interp_from x (x0 # x1 # xs) (f0 # f1 # fs) =
     (if x < x1 then (if x = x0 then f0 else lin_interp x x0 x1 f0 f1)
      else interp_from x (x1 # xs) (f1 # fs))"
| "interp_from x [x0] (f0 # fs) = f0"
| "interp_from x _ _ = NaN"

definition np_interp :: "real \<Rightarrow> real list \<Rightarrow> fl list \<Rightarrow> exn + fl" where
  "np_interp x xp fp =
     (if xp = [] then Inl ValueError
      else if length fp \<noteq> length xp then Inl ValueError
      else if x < hd xp then Inr (hd fp)
      else Inr (interp_from x xp fp))"

subsection \<open>Natural cubic spline: \<open>scipy.interpolate.CubicSpline\<close>\<close>

text \<open>
  \<open>CubicSpline(x, y, bc_type="natural")\<close> finds the first derivatives \<open>s\<close> at the nodes by
  solving a tridiagonal system and stores, for each interval, the four coefficients of
  the cubic Hermite polynomial in powers of \<open>x - x[i]\<close>. A row of the system is
  (lower, diagonal, upper, right-hand side); with zero second derivatives at both ends the
  first right-hand side is \<open>3 * (y[1] - y[0])\<close> and the last \<open>3 * (y[-1] - y[-2])\<close>.
\<close>

type_synonym row = "real \<times> real \<times> real \<times> real"

type_synonym ppoly = "real list \<times> row list"

definition slopes :: "real list \<Rightarrow> real list \<Rightarrow> real list" where
  "slopes xs ys = map2 (\<lambda>e d. e / d) (np_diff ys) (np_diff xs)"

fun interior_rows :: "real list \<Rightarrow> real list \<Rightarrow> row list" where
  "interior_rows (d0 # d1 # ds) (s0 # s1 # ss) =
     (d1, 2 * (d0 + d1), d0, 3 * (d1 * s0 + d0 * s1)) # interior_rows (d1 # ds) (s1 # ss)"
| "interior_rows _ _ = []"

definition natural_system :: "real list \<Rightarrow> real list \<Rightarrow> real list \<Rightarrow> row list" where
  "natural_system dx sl dy =
     (0, 2 * hd dx, hd dx, 3 * hd dy)
       # interior_rows dx sl
       @ [(last dx, 2 * last dx, 0, 3 * last dy)]"

text \<open>
  \<open>solve_banded\<close> on a tridiagonal system, as elimination without row exchanges (the
  matrix is strictly diagonally dominant for increasing nodes).
\<close>

fun eliminate :: "real \<Rightarrow> real \<Rightarrow> row list \<Rightarrow> (real \<times> real) list" where
  "eliminate cp dp [] = []"
| "eliminate cp dp ((a, b, c, d) # rs) =
     (let den = b - a * cp; cp' = c / den; dp' = (d - a * dp) / den
      in (cp', dp') # eliminate cp' dp' rs)"

fun back_substitute :: "(real \<times> real) list \<Rightarrow> real list" where
  "back_substitute [] = []"
| "back_substitute [(cp, dp)] = [dp]"
| "back_substitute ((cp, dp) # r # rs) =
     (let sol = back_substitute (r # rs) in (dp - cp * hd sol) # sol)"

definition solve_banded :: "row list \<Rightarrow> real list" where
  "solve_banded rows = back_substitute (eliminate 0 0 rows)"

text \<open>
  What it means for a vector to solve a tridiagonal system (the unknown before the first
  row is passed as \<open>xp\<close>, the one after the last row is zero), and strict diagonal
  dominance of its rows.
\<close>

fun solves :: "real \<Rightarrow> row list \<Rightarrow> real list \<Rightarrow> bool" where
  "solves xp [] sol = (sol = [])"
| "solves xp ((a, b, c, d) # rs) [] = False"
| "solves xp ((a, b, c, d) # rs) (x # xs) =
     (a * xp + b * x + c * (case xs of [] \<Rightarrow> 0 | x' # _ \<Rightarrow> x') = d \<and> solves x rs xs)"

fun dominant :: "row list \<Rightarrow> bool" where
  "dominant [] = True"
| "dominant ((a, b, c, d) # rs) = (\<bar>a\<bar> + \<bar>c\<bar> < \<bar>b\<bar> \<and> dominant rs)"


definition hermite_coeffs :: "real \<Rightarrow> real \<Rightarrow> real \<Rightarrow> real \<Rightarrow> real \<Rightarrow> real \<Rightarrow> row" where
  "hermite_coeffs x0 x1 y0 y1 s0 s1 =
     (let dx = x1 - x0; slope = (y1 - y0) / dx; t = (s0 + s1 - 2 * slope) / dx
      in (t / dx, (slope - s0) / dx - t, s0, y0))"

fun hermite :: "real list \<Rightarrow> real list \<Rightarrow> real list \<Rightarrow> row list" where
  "hermite (x0 # x1 # xs) (y0 # y1 # ys) (s0 # s1 # ss) =
     hermite_coeffs x0 x1 y0 y1 s0 s1 # hermite (x1 # xs) (y1 # ys) (s1 # ss)"
| "hermite _ _ _ = []"

definition knot_derivatives :: "real list \<Rightarrow> real list \<Rightarrow> real list" where
  "knot_derivatives xs ys =
     solve_banded (natural_system (np_diff xs) (slopes xs ys) (np_diff ys))"

definition CubicSpline :: "real list \<Rightarrow> fl list \<Rightarrow> exn + ppoly" where
  "CubicSpline xs fs =
     (if length xs < 2 then Inl ValueError
      else if length xs \<noteq> length fs then Inl ValueError
      else if \<not> list_all is_Fin fs then Inl ValueError
      else if list_ex (\<lambda>d. d \<le> 0) (np_diff xs) then Inl ValueError
      else let ys = map the_Fin fs;
               s = knot_derivatives xs ys
           in Inr (xs, hermite xs ys s))"

text \<open>
  Calling the spline: the interval \<open>i\<close> with \<open>x[i] \<le> x < x[i+1]\<close> (the first one to the
  left of the nodes, the last one from \<open>x[-2]\<close> on) and its cubic at \<open>x - x[i]\<close>.
\<close>

definition cubic_at :: "row \<Rightarrow> real \<Rightarrow> real" where
  "cubic_at k h = (case k of (c0, c1, c2, c3) \<Rightarrow> c0 * h ^ 3 + c1 * h ^ 2 + c2 * h + c3)"

fun ppoly_from :: "real \<Rightarrow> real list \<Rightarrow> row list \<Rightarrow> real" where
  "ppoly_from x (x0 # x1 # xs) (k # ks) =
     (if x < x1 \<or> ks = [] then cubic_at k (x - x0) else ppoly_from x (x1 # xs) ks)"
| "ppoly_from x _ _ = 0"

definition ppoly_call :: "ppoly \<Rightarrow> real \<Rightarrow> real" where
  "ppoly_call p x = ppoly_from x (fst p) (snd p)"

subsection \<open>\<open>YieldCurve\<close>\<close>

text \<open>
  The dataclass with its four fields and the private \<open>_spline\<close>. The constructor
  \<open>YieldCurve\<close> is the generated \<open>__init__\<close> followed by \<open>__post_init__\<close>; both of its
  own checks and every check of \<open>CubicSpline\<close> raise \<open>ValueError\<close>. The field
  \<open>method_name\<close> is the source's \<open>method\<close>, the string the caller passed: everything
  except \<open>"cubic"\<close> interpolates linearly.
\<close>

record yield_curve =
  tenors :: "string list"
  maturities :: "real list"
  yields :: "fl list"
  method_name :: string
  spline :: "ppoly option"

definition YieldCurve :: "string list \<Rightarrow> real list \<Rightarrow> fl list \<Rightarrow> string \<Rightarrow> exn + yield_curve" where
  "YieldCurve tn ms ys m =
     (if length ms \<noteq> length ys then Inl ValueError
      else if list_ex (\<lambda>d. d \<le> 0) (np_diff ms) then Inl ValueError
      else if m = ''cubic'' then
        (case CubicSpline ms ys of
           Inl e \<Rightarrow> Inl e
         | Inr s \<Rightarrow> Inr \<lparr>tenors = tn, maturities = ms, yields = ys, method_name = m, spline = Some s\<rparr>)
      else Inr \<lparr>tenors = tn, maturities = ms, yields = ys, method_name = m, spline = None\<rparr>)"

text \<open>
  \<open>YieldCurve.y\<close>: \<open>maturities[0]\<close> of an empty array raises \<open>IndexError\<close>; calling a
  \<open>_spline\<close> that is \<open>None\<close> would raise \<open>TypeError\<close>. The clamped time is
  \<open>min(max(t, maturities[0]), maturities[-1])\<close>.
\<close>

definition clamp_to :: "real list \<Rightarrow> real \<Rightarrow> real" where
  "clamp_to ms t = min (max t (hd ms)) (last ms)"

definition y :: "yield_curve \<Rightarrow> real \<Rightarrow> exn + fl" where
  "y c t =
     (if maturities c = [] then Inl IndexError
      else let t_clamped = clamp_to (maturities c) t
           in if method_name c = ''cubic'' then
                (case spline c of
                   None \<Rightarrow> Inl TypeError
                 | Some s \<Rightarrow> Inr (Fin (ppoly_call s t_clamped)))
              else np_interp t_clamped (maturities c) (yields c))"

subsection \<open>Shocks\<close>

text \<open>
  Every shock builds its result with the constructor, so the result is validated (and,
  for a cubic curve, fitted) again. The array expressions are elementwise; the node
  arrays of a constructed curve have equal lengths, which is the case the elementwise
  \<open>map2\<close> models.
\<close>

definition bp_to_decimal :: "real \<Rightarrow> real" where
  "bp_to_decimal bp = bp / 10000"

definition shock_parallel :: "yield_curve \<Rightarrow> real \<Rightarrow> exn + yield_curve" where
  "shock_parallel curve bp =
     (let bump = bp_to_decimal bp
      in YieldCurve (tenors curve) (maturities curve)
           (map (\<lambda>v. fl_add v (Fin bump)) (yields curve)) (method_name curve))"

text \<open>
  The ramp \<open>(maturities - maturities[0]) / (maturities[-1] - maturities[0])\<close>, a numpy
  division: a zero span gives NaN, not an exception.
\<close>

definition ramp :: "real list \<Rightarrow> fl list" where
  "ramp ms = map (\<lambda>m. fl_div (Fin (m - hd ms)) (Fin (last ms - hd ms))) ms"

definition shock_steepen :: "yield_curve \<Rightarrow> real \<Rightarrow> exn + yield_curve" where
  "shock_steepen curve bp =
     (if maturities curve = [] then Inl IndexError
      else let bump = bp_to_decimal bp;
               w = ramp (maturities curve)
           in YieldCurve (tenors curve) (maturities curve)
                (map2 (\<lambda>v wi. fl_add v (fl_mul (Fin bump) wi)) (yields curve) w) (method_name curve))"

definition shock_flatten :: "yield_curve \<Rightarrow> real \<Rightarrow> exn + yield_curve" where
  "shock_flatten curve bp =
     (if maturities curve = [] then Inl IndexError
      else let bump = bp_to_decimal bp;
               w = ramp (maturities curve)
           in YieldCurve (tenors curve) (maturities curve)
                (map2 (\<lambda>v wi. fl_sub v (fl_mul (Fin bump) wi)) (yields curve) w) (method_name curve))"

definition shock_twist :: "yield_curve \<Rightarrow> real \<Rightarrow> bool \<Rightarrow> exn + yield_curve" where
  "shock_twist curve bp short_up =
     (if maturities curve = [] then Inl IndexError
      else let bump = bp_to_decimal bp;
               w01 = ramp (maturities curve);
               w = map (\<lambda>wi. fl_sub (Fin 1) (fl_mul (Fin 2) wi)) w01;
               w' = (if \<not> short_up then map fl_neg w else w)
           in YieldCurve (tenors curve) (maturities curve)
                (map2 (\<lambda>v wi. fl_add v (fl_mul (Fin bump) wi)) (yields curve) w') (method_name curve))"

text \<open>
  The bell-shaped weights of the butterfly,
  \<open>np.exp(-((maturities - mid) ** 2) / (0.15 * span) ** 2)\<close>.
\<close>

definition bell :: "real \<Rightarrow> real \<Rightarrow> real list \<Rightarrow> fl list" where
  "bell mid width ms =
     map (\<lambda>m. fl_exp (fl_div (Fin (- ((m - mid) ^ 2))) (Fin ((0.15 * width) ^ 2)))) ms"

definition shock_butterfly :: "yield_curve \<Rightarrow> real \<Rightarrow> exn + yield_curve" where
  "shock_butterfly curve bp =
     (if maturities curve = [] then Inl IndexError
      else let bump = bp_to_decimal bp;
               mid = 0.5 * (hd (maturities curve) + last (maturities curve));
               span = last (maturities curve) - hd (maturities curve);
               w = bell mid span (maturities curve);
               w1 = map (\<lambda>wi. fl_div wi (np_max w)) w;
               w2 = map (\<lambda>wi. fl_sub wi (np_mean w1)) w1
           in YieldCurve (tenors curve) (maturities curve)
                (map2 (\<lambda>v wi. fl_add v (fl_mul (Fin bump) wi)) (yields curve) w2) (method_name curve))"

text \<open>
  \<open>str.lower\<close> and \<open>str.strip\<close> on the characters of ASCII (a character beyond ASCII
  is kept as it is); the whitespace of \<open>strip\<close> is tab, line feed, vertical tab, form
  feed, carriage return, the four separators 28 to 31 and the space.
\<close>

definition lower_char :: "char \<Rightarrow> char" where
  "lower_char ch =
     (case map_of (zip ''ABCDEFGHIJKLMNOPQRSTUVWXYZ'' ''abcdefghijklmnopqrstuvwxyz'') ch of
        None \<Rightarrow> ch
      | Some l \<Rightarrow> l)"

definition lower :: "string \<Rightarrow> string" where
  "lower s = map lower_char s"

definition isspace :: "char \<Rightarrow> bool" where
  "isspace ch =
     (ch \<in> set [CHR 0x09, CHR 0x0A, CHR 0x0B, CHR 0x0C, CHR 0x0D,
                CHR 0x1C, CHR 0x1D, CHR 0x1E, CHR 0x1F, CHR '' ''])"

definition strip :: "string \<Rightarrow> string" where
  "strip s = rev (dropWhile isspace (rev (dropWhile isspace s)))"

definition apply_shock :: "yield_curve \<Rightarrow> string \<Rightarrow> real \<Rightarrow> bool \<Rightarrow> exn + yield_curve" where
  "apply_shock curve shock_type bp twist_short_up =
     (let shock_type = strip (lower shock_type)
      in if shock_type = ''parallel'' then shock_parallel curve bp
         else if shock_type = ''steepen'' then shock_steepen curve bp
         else if shock_type = ''flatten'' then shock_flatten curve bp
         else if shock_type = ''twist'' then shock_twist curve bp twist_short_up
         else if shock_type = ''butterfly'' then shock_butterfly curve bp
         else Inl ValueError)"

section \<open>Bond pricing and risk (\<open>src/bond.py\<close>)\<close>

record Bond =
  face :: real
  coupon_rate :: real
  maturity_years :: real
  freq :: int

text \<open>A list comprehension whose element expression can raise: the first exception wins.\<close>

fun collect :: "(exn + 'a) list \<Rightarrow> exn + 'a list" where
  "collect [] = Inr []"
| "collect (Inl e # rs) = Inl e"
| "collect (Inr v # rs) = (case collect rs of Inl e \<Rightarrow> Inl e | Inr vs \<Rightarrow> Inr (v # vs))"

definition discount :: "yield_curve \<Rightarrow> real \<Rightarrow> exn + fl" where
  "discount curve t =
     (case y curve t of
        Inl e \<Rightarrow> Inl e
      | Inr v \<Rightarrow> Inr (fl_div (Fin 1) (np_pow (fl_add (Fin 1) v) t)))"

text \<open>
  The number of cash flows, \<open>n = int(round(bond.maturity_years * bond.freq))\<close>: the
  integer \<open>freq\<close> is converted to a double, the product is rounded to a double, and that
  double is rounded to an integer. Converting an integer beyond the doubles, or rounding an
  infinite product to an integer, raises \<open>OverflowError\<close>.
\<close>

definition n_of :: "Bond \<Rightarrow> exn + int" where
  "n_of bond =
     (case rd (of_int (freq bond)) of
        Fin f \<Rightarrow>
          (case rd (maturity_years bond * f) of
             Fin p \<Rightarrow> Inr (py_round p)
           | _ \<Rightarrow> Inl OverflowError)
      | _ \<Rightarrow> Inl OverflowError)"

text \<open>
  The other locals of \<open>price_bond\<close>, read only after \<open>n\<close> has been found positive (where
  \<open>freq\<close> cannot be zero): the \<open>times\<close>, each the quotient of two integers rounded to a
  double (it is at most \<open>n\<close> in size, so it cannot overflow), and the cash flows \<open>cfs\<close>,
  of which the last one carries the face value.
\<close>

definition times_of :: "Bond \<Rightarrow> int \<Rightarrow> real list" where
  "times_of bond n = map (\<lambda>i. rnd ((real i + 1) / of_int (freq bond))) [0..<nat n]"

definition cfs_of :: "Bond \<Rightarrow> int \<Rightarrow> real list" where
  "cfs_of bond n =
     (let coupon = face bond * coupon_rate bond / of_int (freq bond)
      in (replicate (nat n) coupon)[nat n - 1 := coupon + face bond])"

definition price_bond :: "yield_curve \<Rightarrow> Bond \<Rightarrow> exn + fl" where
  "price_bond curve bond =
     (case n_of bond of
        Inl e \<Rightarrow> Inl e
      | Inr n \<Rightarrow>
          if n \<le> 0 then Inl ValueError
          else case collect (map (discount curve) (times_of bond n)) of
                 Inl e \<Rightarrow> Inl e
               | Inr dfs \<Rightarrow> Inr (np_sum (map2 fl_mul (map Fin (cfs_of bond n)) dfs)))"

text \<open>Sequencing of calls that may raise.\<close>

definition and_then :: "exn + 'a \<Rightarrow> ('a \<Rightarrow> exn + 'b) \<Rightarrow> exn + 'b" where
  "and_then r f = (case r of Inl e \<Rightarrow> Inl e | Inr v \<Rightarrow> f v)"

text \<open>
  The risk numbers are computed on Python floats, in the order of the source: the bump
  \<open>dy\<close>, the three prices, then \<open>dv01\<close>, \<open>mod_duration\<close> and \<open>convexity\<close>, each divisor
  before its division. The result is the dictionary, in insertion order.
\<close>

definition dv01_duration_convexity :: "yield_curve \<Rightarrow> Bond \<Rightarrow> real \<Rightarrow> exn + (string \<times> fl) list" where
  "dv01_duration_convexity curve bond bp =
     (let dy = rd (bp_to_decimal bp) in
      and_then (price_bond curve bond) (\<lambda>p0.
      and_then (shock_parallel curve bp) (\<lambda>curve_up.
      and_then (shock_parallel curve (- bp)) (\<lambda>curve_dn.
      and_then (price_bond curve_up bond) (\<lambda>p_up.
      and_then (price_bond curve_dn bond) (\<lambda>p_dn.
      and_then (py_div (py_sub p_dn p_up) (Fin 2)) (\<lambda>dv01.
      and_then (py_div (py_sub p_dn p_up) (py_mul (py_mul (Fin 2) p0) dy)) (\<lambda>mod_duration.
      and_then (py_square dy) (\<lambda>dy2.
      and_then (py_div (py_sub (py_add p_dn p_up) (py_mul (Fin 2) p0)) (py_mul p0 dy2))
        (\<lambda>convexity.
      Inr [(''price'', p0),
           (''price_up_+bp'', p_up),
           (''price_dn_-bp'', p_dn),
           (''DV01_per_1bp'', dv01),
           (''mod_duration'', mod_duration),
           (''convexity'', convexity)]))))))))))"


section \<open>The price as the specification words it\<close>

text \<open>
  Section 4.3 of the specification: cash-flow times \<open>t_i = (i+1)/freq\<close> (as doubles),
  every cash flow the coupon \<open>face * coupon_rate / freq\<close> and the last one the coupon plus
  the face, the discount factor \<open>1 / (1 + yieldAt(t_i))^{t_i}\<close>, and the price the sum of
  cash flow times discount factor over \<open>i = 0..n-1\<close>. These definitions follow the
  specification; the theorems compare them with \<open>price_bond\<close>.
\<close>

definition spec_time :: "Bond \<Rightarrow> nat \<Rightarrow> real" where
  "spec_time bond i = rnd ((real i + 1) / of_int (freq bond))"

definition spec_cash_flow :: "Bond \<Rightarrow> nat \<Rightarrow> nat \<Rightarrow> real" where
  "spec_cash_flow bond n i =
     (if i = n - 1 then face bond * coupon_rate bond / of_int (freq bond) + face bond
      else face bond * coupon_rate bond / of_int (freq bond))"

definition spec_discount_factor :: "fl \<Rightarrow> real \<Rightarrow> fl" where
  "spec_discount_factor yield t = fl_div (Fin 1) (np_pow (fl_add (Fin 1) yield) t)"

definition spec_price :: "(real \<Rightarrow> fl) \<Rightarrow> Bond \<Rightarrow> nat \<Rightarrow> fl" where
  "spec_price yield_at bond n =
     np_sum (map (\<lambda>i. fl_mul (Fin (spec_cash_flow bond n i))
                        (spec_discount_factor (yield_at (spec_time bond i)) (spec_time bond i)))
              [0..<n])"


section \<open>Properties\<close>

subsection \<open>Construction\<close>

lemma increasing_iff: "(\<not> list_ex (\<lambda>d. d \<le> 0) (np_diff ms)) = sorted_wrt (<) ms"
proof (induction ms rule: np_diff.induct)
  case (1 a b xs)
  have "sorted_wrt (<) (a # b # xs) = (a < b \<and> sorted_wrt (<) (b # xs))"
    by auto
  with 1 show ?case by auto
qed simp_all

lemma CubicSpline_fails_iff:
  "length ms = length ys \<Longrightarrow> sorted_wrt (<) ms \<Longrightarrow>
   (if length ms < 2 \<or> \<not> list_all is_Fin ys then CubicSpline ms ys = Inl ValueError
    else \<exists>s. CubicSpline ms ys = Inr s)"
  using increasing_iff [of ms] by (simp add: CubicSpline_def Let_def)

text \<open>
  Claim C8, as the code has it. Construction raises \<open>ValueError\<close> exactly when the
  maturities and the yields differ in length, or the maturities are not strictly
  increasing, or the method is \<open>"cubic"\<close> and the spline fit refuses the nodes (fewer than
  two of them, or a yield that is not finite). Otherwise it succeeds and stores the
  tenors, maturities and yields exactly as given, in the given order. The length of the
  tenor list takes no part in the decision.
\<close>

theorem YieldCurve_fails_iff:
  "(if length ms \<noteq> length ys \<or> \<not> sorted_wrt (<) ms
       \<or> (m = ''cubic'' \<and> (length ms < 2 \<or> \<not> list_all is_Fin ys))
    then YieldCurve tn ms ys m = Inl ValueError
    else \<exists>sp. YieldCurve tn ms ys m =
           Inr \<lparr>tenors = tn, maturities = ms, yields = ys, method_name = m, spline = sp\<rparr>)"
proof (cases "length ms \<noteq> length ys \<or> \<not> sorted_wrt (<) ms")
  case True
  then show ?thesis using increasing_iff [of ms] by (auto simp: YieldCurve_def)
next
  case False
  then have ok: "length ms = length ys" "sorted_wrt (<) ms" by auto
  show ?thesis
    using ok CubicSpline_fails_iff [OF ok] increasing_iff [of ms]
    by (auto simp: YieldCurve_def split: sum.splits if_splits)
qed

text \<open>
  The three cases at concrete nodes: maturities out of order are rejected, a cubic curve
  with one node is rejected, a cubic curve with two nodes is built.
\<close>

theorem YieldCurve_fails_iff_witness:
  "YieldCurve [''2Y'', ''1Y''] [2, 1] [Fin 0.05, Fin 0.04] ''linear'' = Inl ValueError \<and>
   YieldCurve [''1Y''] [1] [Fin 0.04] ''cubic'' = Inl ValueError \<and>
   (\<exists>sp. YieldCurve [''1Y'', ''2Y''] [1, 2] [Fin 0.04, Fin 0.05] ''cubic'' =
      Inr \<lparr>tenors = [''1Y'', ''2Y''], maturities = [1, 2], yields = [Fin 0.04, Fin 0.05],
           method_name = ''cubic'', spline = sp\<rparr>)"
  using YieldCurve_fails_iff [of "[2, 1]" "[Fin 0.05, Fin 0.04]" "''linear''" "[''2Y'', ''1Y'']"]
    YieldCurve_fails_iff [of "[1]" "[Fin 0.04]" "''cubic''" "[''1Y'']"]
    YieldCurve_fails_iff [of "[1, 2]" "[Fin 0.04, Fin 0.05]" "''cubic''" "[''1Y'', ''2Y'']"]
  by simp

text \<open>
  Claim C8 as stated fails: one tenor label with two maturities and two yields is
  accepted.
\<close>

theorem YieldCurve_tenors_unchecked:
  "length [''1Y''] \<noteq> length [1, 2 :: real] \<and>
   YieldCurve [''1Y''] [1, 2] [Fin 0.04, Fin 0.05] ''linear'' =
     Inr \<lparr>tenors = [''1Y''], maturities = [1, 2], yields = [Fin 0.04, Fin 0.05],
          method_name = ''linear'', spline = None\<rparr>"
  by (simp add: YieldCurve_def)

lemma YieldCurve_InrD:
  assumes "YieldCurve tn ms ys m = Inr c"
  shows "tenors c = tn" "maturities c = ms" "yields c = ys" "method_name c = m"
    "length ms = length ys" "sorted_wrt (<) ms"
    "m \<noteq> ''cubic'' \<Longrightarrow> spline c = None"
    "m = ''cubic'' \<Longrightarrow> \<exists>s. CubicSpline ms ys = Inr s \<and> spline c = Some s"
  using assms increasing_iff [of ms]
  by (auto simp: YieldCurve_def split: if_splits sum.splits)

lemma CubicSpline_InrD:
  assumes "CubicSpline xs fs = Inr s"
  shows "2 \<le> length xs" "list_all is_Fin fs"
    "s = (xs, hermite xs (map the_Fin fs) (knot_derivatives xs (map the_Fin fs)))"
  using assms by (auto simp: CubicSpline_def Let_def split: if_splits)

lemma sorted_hd_le_last: "sorted_wrt (<) (ms :: real list) \<Longrightarrow> ms \<noteq> [] \<Longrightarrow> hd ms \<le> last ms"
  by (cases ms) (auto simp: less_imp_le dest: last_in_set)


subsection \<open>Yield at a time\<close>

lemma sorted_nth_bounds:
  assumes "sorted_wrt (<) (ms :: real list)" and "i < length ms"
  shows "hd ms \<le> ms ! i" and "ms ! i \<le> last ms"
proof -
  have ne: "ms \<noteq> []" using assms(2) by auto
  have s: "sorted ms" using assms(1) by (simp add: strict_sorted_imp_sorted)
  show "hd ms \<le> ms ! i"
    using sorted_nth_mono [OF s, of 0 i] assms(2) ne by (simp add: hd_conv_nth)
  show "ms ! i \<le> last ms"
    using sorted_nth_mono [OF s, of i "length ms - 1"] assms(2) ne
    by (simp add: last_conv_nth)
qed

lemma clamp_node:
  assumes "sorted_wrt (<) (ms :: real list)" and "i < length ms"
  shows "min (max (ms ! i) (hd ms)) (last ms) = ms ! i"
  using sorted_nth_bounds [OF assms] by simp

lemma interp_from_node:
  "sorted_wrt (<) xs \<Longrightarrow> length fs = length xs \<Longrightarrow> i < length xs \<Longrightarrow>
   interp_from (xs ! i) xs fs = fs ! i"
proof (induction xs arbitrary: fs i)
  case Nil
  then show ?case by simp
next
  case (Cons x0 xs)
  then obtain f0 fs' where fs: "fs = f0 # fs'" by (cases fs) auto
  show ?case
  proof (cases xs)
    case Nil
    then show ?thesis using Cons.prems fs by simp
  next
    case (Cons x1 xs')
    then obtain f1 fs'' where fs': "fs' = f1 # fs''" using Cons.prems fs by (cases fs') auto
    show ?thesis
    proof (cases i)
      case 0
      then show ?thesis using Cons.prems fs fs' Cons by simp
    next
      case (Suc j)
      have j: "j < length xs" using Cons.prems Suc by simp
      have srt: "sorted_wrt (<) xs" using Cons.prems by simp
      have "x1 \<le> xs ! j"
        using sorted_nth_bounds(1) [OF srt j] Cons by simp
      then have "\<not> xs ! j < x1" by simp
      moreover have "interp_from (xs ! j) xs fs' = fs' ! j"
        using Cons.IH [OF srt _ j, of fs'] Cons.prems fs by simp
      ultimately show ?thesis using Suc fs fs' Cons by simp
    qed
  qed
qed

lemma cubic_telescope:
  fixes h :: real
  assumes "h \<noteq> 0"
  shows "t / h * h ^ 3 + ((sl - s0) / h - t) * h ^ 2 + s0 * h + y0 = sl * h + y0"
proof -
  have "t / h * h ^ 3 = t * h ^ 2"
    using assms by (simp add: power2_eq_square power3_eq_cube)
  moreover have "((sl - s0) / h - t) * h ^ 2 = (sl - s0) * h - t * h ^ 2"
  proof -
    have "(sl - s0) / h * h ^ 2 = (sl - s0) * h"
      using assms by (simp add: power2_eq_square)
    then show ?thesis by (simp add: left_diff_distrib)
  qed
  ultimately show ?thesis by (simp add: algebra_simps)
qed

lemma cubic_at_right_end:
  assumes "x0 \<noteq> x1"
  shows "cubic_at (hermite_coeffs x0 x1 y0 y1 s0 s1) (x1 - x0) = y1"
proof -
  have h: "x1 - x0 \<noteq> 0" using assms by simp
  have "cubic_at (hermite_coeffs x0 x1 y0 y1 s0 s1) (x1 - x0)
        = (y1 - y0) / (x1 - x0) * (x1 - x0) + y0"
    unfolding cubic_at_def hermite_coeffs_def Let_def prod.case
    by (rule cubic_telescope [OF h])
  also have "\<dots> = y1" using h by simp
  finally show ?thesis .
qed

lemma cubic_at_left_end:
  "cubic_at (hermite_coeffs x0 x1 y0 y1 s0 s1) 0 = y0"
  by (simp add: cubic_at_def hermite_coeffs_def Let_def)

lemma hermite_Nil_iff:
  "length ys = length xs \<Longrightarrow> length s = length xs \<Longrightarrow> (hermite xs ys s = []) = (length xs < 2)"
  by (induction xs ys s rule: hermite.induct) auto

lemma ppoly_from_node:
  "sorted_wrt (<) xs \<Longrightarrow> length ys = length xs \<Longrightarrow> length s = length xs \<Longrightarrow>
   2 \<le> length xs \<Longrightarrow> i < length xs \<Longrightarrow>
   ppoly_from (xs ! i) xs (hermite xs ys s) = ys ! i"
proof (induction xs ys s arbitrary: i rule: hermite.induct)
  case (1 x0 x1 xs y0 y1 ys s0 s1 ss)
  let ?ks = "hermite (x1 # xs) (y1 # ys) (s1 # ss)"
  have lens: "length (y1 # ys) = length (x1 # xs)" "length (s1 # ss) = length (x1 # xs)"
    using "1.prems" by simp_all
  have srt: "sorted_wrt (<) (x1 # xs)" and lt: "x0 < x1" using "1.prems" by simp_all
  show ?case
  proof (cases i)
    case 0
    then show ?thesis using lt by (simp add: cubic_at_left_end)
  next
    case (Suc j)
    have j: "j < length (x1 # xs)" using "1.prems" Suc by simp
    have ge: "x1 \<le> (x1 # xs) ! j" using sorted_nth_bounds(1) [OF srt j] by simp
    show ?thesis
    proof (cases "?ks = []")
      case True
      then have "xs = []" using hermite_Nil_iff [OF lens] by simp
      then have "j = 0" using j by simp
      then show ?thesis using Suc True lt by (simp add: cubic_at_right_end)
    next
      case False
      then have "\<not> length (x1 # xs) < 2" using hermite_Nil_iff [OF lens] by blast
      then have two: "2 \<le> length (x1 # xs)" by linarith
      have "ppoly_from ((x1 # xs) ! j) (x1 # xs) ?ks = (y1 # ys) ! j"
        by (rule "1.IH" [OF srt lens two j])
      then show ?thesis using Suc False ge by simp
    qed
  qed
qed simp_all

lemma length_np_diff: "length (np_diff xs) = length xs - 1"
  by (induction xs rule: np_diff.induct) simp_all

lemma length_slopes: "length ys = length xs \<Longrightarrow> length (slopes xs ys) = length xs - 1"
  by (simp add: slopes_def length_np_diff)

lemma length_interior_rows:
  "length sl = length dx \<Longrightarrow> length (interior_rows dx sl) = length dx - 1"
  by (induction dx sl rule: interior_rows.induct) simp_all

lemma length_eliminate: "length (eliminate cp dp rows) = length rows"
  by (induction rows arbitrary: cp dp) (auto simp: Let_def)

lemma length_back_substitute: "length (back_substitute l) = length l"
  by (induction l rule: back_substitute.induct) (simp_all add: Let_def)

lemma length_solve_banded: "length (solve_banded rows) = length rows"
  by (simp add: solve_banded_def length_back_substitute length_eliminate)

lemma length_natural_system:
  "length sl = length dx \<Longrightarrow> dx \<noteq> [] \<Longrightarrow> length (natural_system dx sl dy) = length dx + 1"
  by (cases dx) (simp_all add: natural_system_def length_interior_rows)

lemma length_spline_derivatives:
  assumes "length ys = length xs" and "2 \<le> length xs"
  shows "length (knot_derivatives xs ys) = length xs"
proof -
  have "np_diff xs \<noteq> []" using assms(2) length_np_diff [of xs] by (cases "np_diff xs") auto
  then show ?thesis
    using assms
    by (simp add: knot_derivatives_def length_solve_banded length_natural_system
        length_slopes length_np_diff)
qed

text \<open>
  The fitted derivatives solve the tridiagonal system of the natural spline: the system
  is strictly diagonally dominant, so no pivot of the elimination is zero.
\<close>

lemma back_substitute_Cons:
  "back_substitute ((cp, dp) # e) =
     (dp - cp * (case back_substitute e of [] \<Rightarrow> 0 | x' # _ \<Rightarrow> x')) # back_substitute e"
proof (cases e)
  case Nil
  then show ?thesis by simp
next
  case (Cons r rs)
  have "length (back_substitute (r # rs)) = length (r # rs)" by (rule length_back_substitute)
  then obtain x xs where "back_substitute (r # rs) = x # xs"
    by (cases "back_substitute (r # rs)") auto
  then show ?thesis using Cons by (simp add: Let_def)
qed

lemma pivot_nonzero:
  fixes a b c cp :: real
  assumes "\<bar>a\<bar> + \<bar>c\<bar> < \<bar>b\<bar>" and "\<bar>cp\<bar> \<le> 1"
  shows "b - a * cp \<noteq> 0" and "\<bar>c / (b - a * cp)\<bar> \<le> 1"
proof -
  have "\<bar>a * cp\<bar> \<le> \<bar>a\<bar>"
    using assms(2) by (simp add: abs_mult mult_left_le)
  then have lt: "\<bar>c\<bar> < \<bar>b - a * cp\<bar>" using assms(1) by linarith
  then show "b - a * cp \<noteq> 0" by auto
  from lt show "\<bar>c / (b - a * cp)\<bar> \<le> 1" by simp
qed

lemma eliminate_solves:
  "dominant rows \<Longrightarrow> \<bar>cp\<bar> \<le> 1 \<Longrightarrow>
   solves (dp - cp * (case back_substitute (eliminate cp dp rows) of [] \<Rightarrow> 0 | x # _ \<Rightarrow> x))
     rows (back_substitute (eliminate cp dp rows))"
proof (induction rows arbitrary: cp dp)
  case Nil
  then show ?case by simp
next
  case (Cons r rows)
  obtain a b c d where r: "r = (a, b, c, d)" by (cases r) auto
  define den where "den = b - a * cp"
  define cp' where "cp' = c / den"
  define dp' where "dp' = (d - a * dp) / den"
  define sol where "sol = back_substitute (eliminate cp' dp' rows)"
  define h where "h = (case sol of [] \<Rightarrow> 0 | x # _ \<Rightarrow> x)"
  have dom: "\<bar>a\<bar> + \<bar>c\<bar> < \<bar>b\<bar>" "dominant rows" using Cons.prems(1) r by simp_all
  have den: "den \<noteq> 0" and cp': "\<bar>cp'\<bar> \<le> 1"
    using pivot_nonzero [OF dom(1) Cons.prems(2)] by (simp_all add: den_def cp'_def)
  have e: "eliminate cp dp (r # rows) = (cp', dp') # eliminate cp' dp' rows"
    by (simp add: r Let_def den_def cp'_def dp'_def)
  have bs: "back_substitute (eliminate cp dp (r # rows)) = (dp' - cp' * h) # sol"
    unfolding e back_substitute_Cons sol_def h_def ..
  have ih: "solves (dp' - cp' * h) rows sol"
    using Cons.IH [OF dom(2) cp', of dp'] by (simp add: sol_def h_def)
  have "den * (dp' - cp' * h) = d - a * dp - c * h"
    using den by (simp add: dp'_def cp'_def field_simps)
  then have "a * (dp - cp * (dp' - cp' * h)) + b * (dp' - cp' * h) + c * h = d"
    by (simp add: den_def algebra_simps)
  then show ?case unfolding bs using ih by (simp add: r h_def)
qed

lemma solve_banded_solves: "dominant rows \<Longrightarrow> solves 0 rows (solve_banded rows)"
  using eliminate_solves [of rows 0 0] by (simp add: solve_banded_def)

lemma np_diff_pos: "sorted_wrt (<) xs \<Longrightarrow> \<forall>d\<in>set (np_diff xs). 0 < d"
  by (induction xs rule: np_diff.induct) auto

lemma dominant_interior: "\<forall>d\<in>set dx. 0 < d \<Longrightarrow> dominant (interior_rows dx sl)"
  by (induction dx sl rule: interior_rows.induct) auto

lemma dominant_append: "dominant (rs @ rs') = (dominant rs \<and> dominant rs')"
  by (induction rs) auto

lemma dominant_natural_system:
  assumes "\<forall>d\<in>set dx. 0 < d" and "dx \<noteq> []"
  shows "dominant (natural_system dx sl dy)"
proof -
  have "0 < hd dx" "0 < last dx" using assms by simp_all
  then show ?thesis
    using dominant_interior [OF assms(1), of sl]
    by (simp add: natural_system_def dominant_append)
qed

lemma knot_derivatives_solve:
  assumes "sorted_wrt (<) xs" and "2 \<le> length xs"
  shows "solves 0 (natural_system (np_diff xs) (slopes xs ys) (np_diff ys))
           (knot_derivatives xs ys)"
proof -
  have "np_diff xs \<noteq> []" using assms(2) length_np_diff [of xs] by (cases "np_diff xs") auto
  then show ?thesis
    unfolding knot_derivatives_def
    by (intro solve_banded_solves dominant_natural_system np_diff_pos assms(1))
qed

lemma YieldCurve_ok:
  assumes "length ms = length ys" and "sorted_wrt (<) ms"
    and "m = ''cubic'' \<Longrightarrow> 2 \<le> length ms \<and> list_all is_Fin ys"
  shows "\<exists>c. YieldCurve tn ms ys m = Inr c"
  using assms increasing_iff [of ms]
  by (auto simp: YieldCurve_def CubicSpline_def Let_def)

lemma clamp_to_idem:
  "hd ms \<le> last ms \<Longrightarrow> clamp_to ms (clamp_to ms t) = clamp_to ms t"
  by (simp add: clamp_to_def)

lemma clamp_to_ge: "hd ms \<le> last ms \<Longrightarrow> hd ms \<le> clamp_to ms t"
  by (simp add: clamp_to_def)

lemma y_linear:
  assumes "YieldCurve tn ms ys m = Inr c" and "m \<noteq> ''cubic''" and "ms \<noteq> []"
  shows "y c t = Inr (interp_from (clamp_to ms t) ms ys)"
proof -
  note d = YieldCurve_InrD [OF assms(1)]
  have "\<not> min (max t (hd ms)) (last ms) < hd ms"
    using sorted_hd_le_last [OF d(6) assms(3)] by simp
  then show ?thesis
    using d(2-5) assms(2,3) by (simp add: y_def np_interp_def clamp_to_def Let_def)
qed

lemma y_cubic_explicit:
  assumes "YieldCurve tn ms ys ''cubic'' = Inr c"
  shows "y c t = Inr (Fin (ppoly_from (clamp_to ms t) ms
           (hermite ms (map the_Fin ys) (knot_derivatives ms (map the_Fin ys)))))"
    and "2 \<le> length ms" and "list_all is_Fin ys"
proof -
  note d = YieldCurve_InrD [OF assms]
  from d(8) obtain p where p: "CubicSpline ms ys = Inr p" "spline c = Some p" by auto
  note e = CubicSpline_InrD [OF p(1)]
  show "2 \<le> length ms" "list_all is_Fin ys" by (rule e)+
  have ne: "ms \<noteq> []" using e(1) by auto
  show "y c t = Inr (Fin (ppoly_from (clamp_to ms t) ms
           (hermite ms (map the_Fin ys) (knot_derivatives ms (map the_Fin ys)))))"
    using d(2,4) p(2) e(3) ne by (simp add: y_def ppoly_call_def Let_def)
qed

lemma y_cubic:
  assumes "YieldCurve tn ms ys ''cubic'' = Inr c"
  shows "\<exists>s. length s = length ms \<and> 2 \<le> length ms \<and> list_all is_Fin ys \<and>
    (\<forall>t. y c t = Inr (Fin (ppoly_from (clamp_to ms t) ms (hermite ms (map the_Fin ys) s))))"
proof -
  note e = y_cubic_explicit [OF assms]
  have "length (knot_derivatives ms (map the_Fin ys)) = length ms"
    using length_spline_derivatives [of "map the_Fin ys" ms] YieldCurve_InrD(5) [OF assms] e(2)
    by simp
  then show ?thesis using e by blast
qed

lemma y_total:
  assumes "YieldCurve tn ms ys m = Inr c" and "ms \<noteq> []"
  shows "\<exists>g. \<forall>t. y c t = Inr (g (clamp_to ms t))"
proof (cases "m = ''cubic''")
  case False
  show ?thesis
    using y_linear [OF assms(1) False assms(2)]
    by (intro exI [of _ "\<lambda>x. interp_from x ms ys"]) simp
next
  case True
  from y_cubic [of tn ms ys c] assms(1) True obtain s where
    "\<And>t. y c t = Inr (Fin (ppoly_from (clamp_to ms t) ms (hermite ms (map the_Fin ys) s)))"
    by auto
  then show ?thesis
    by (intro exI [of _ "\<lambda>x. Fin (ppoly_from x ms (hermite ms (map the_Fin ys) s))"]) simp
qed


lemma is_Fin_the_Fin: "is_Fin v \<Longrightarrow> Fin (the_Fin v) = v"
  by (cases v) simp_all

lemma y_linear_or_cubic_node:
  assumes "YieldCurve tn ms ys m = Inr c" and "i < length ms"
  shows "y c (ms ! i) = Inr (ys ! i)"
proof -
  note d = YieldCurve_InrD [OF assms(1)]
  have ne: "ms \<noteq> []" using assms(2) by auto
  have cl: "clamp_to ms (ms ! i) = ms ! i"
    unfolding clamp_to_def by (rule clamp_node [OF d(6) assms(2)])
  show ?thesis
  proof (cases "m = ''cubic''")
    case False
    have "y c (ms ! i) = Inr (interp_from (ms ! i) ms ys)"
      using y_linear [OF assms(1) False ne, of "ms ! i"] cl by simp
    also have "interp_from (ms ! i) ms ys = ys ! i"
      using interp_from_node [OF d(6) _ assms(2), of ys] d(5) by simp
    finally show ?thesis .
  next
    case True
    from y_cubic [of tn ms ys c] assms(1) True obtain s where
      s: "length s = length ms" "2 \<le> length ms" "list_all is_Fin ys"
        "\<And>t. y c t = Inr (Fin (ppoly_from (clamp_to ms t) ms (hermite ms (map the_Fin ys) s)))"
      by auto
    have "ppoly_from (ms ! i) ms (hermite ms (map the_Fin ys) s) = map the_Fin ys ! i"
      using ppoly_from_node [OF d(6) _ s(1) s(2) assms(2), of "map the_Fin ys"] d(5) by simp
    moreover have "Fin (map the_Fin ys ! i) = ys ! i"
      using s(3) assms(2) d(5) by (simp add: is_Fin_the_Fin list_all_length)
    ultimately show ?thesis using s(4) [of "ms ! i"] cl by simp
  qed
qed

text \<open>
  Claim C3. On a constructed curve, linear or cubic, the yield at the maturity of node
  \<open>i\<close> is the yield of node \<open>i\<close>. (In the real-number reading of the doubles the
  equality is exact.)
\<close>

theorem y_at_node:
  assumes "YieldCurve tn ms ys m = Inr c" and "i < length (maturities c)"
  shows "y c (maturities c ! i) = Inr (yields c ! i)"
  using y_linear_or_cubic_node [OF assms(1), of i] assms(2) YieldCurve_InrD(2,3) [OF assms(1)]
  by simp

text \<open>The middle node of a linear curve and the last node of a cubic one.\<close>

theorem y_at_node_witness:
  "(\<exists>c. YieldCurve [''1Y'', ''5Y'', ''10Y''] [1, 5, 10] [Fin 0.04, Fin 0.045, Fin 0.047] ''linear''
          = Inr c \<and> y c 5 = Inr (Fin 0.045)) \<and>
   (\<exists>c. YieldCurve [''1Y'', ''5Y'', ''10Y''] [1, 5, 10] [Fin 0.04, Fin 0.045, Fin 0.047] ''cubic''
          = Inr c \<and> y c 10 = Inr (Fin 0.047))"
proof -
  let ?tn = "[''1Y'', ''5Y'', ''10Y'']"
  let ?ms = "[1, 5, 10 :: real]"
  let ?ys = "[Fin 0.04, Fin 0.045, Fin 0.047]"
  obtain c1 where c1: "YieldCurve ?tn ?ms ?ys ''linear'' = Inr c1"
    using YieldCurve_ok [of ?ms ?ys "''linear''" ?tn] by auto
  obtain c2 where c2: "YieldCurve ?tn ?ms ?ys ''cubic'' = Inr c2"
    using YieldCurve_ok [of ?ms ?ys "''cubic''" ?tn] by auto
  have "y c1 5 = Inr (Fin 0.045)"
    using y_at_node [OF c1, of 1] YieldCurve_InrD(2,3) [OF c1] by simp
  moreover have "y c2 10 = Inr (Fin 0.047)"
    using y_at_node [OF c2, of 2] YieldCurve_InrD(2,3) [OF c2] by simp
  ultimately show ?thesis using c1 c2 by blast
qed

text \<open>
  Claim C4. On a constructed curve with at least one node, linear or cubic, \<open>y\<close>
  returns a value for every time, the value at the time clamped into
  \<open>[maturities[0], maturities[-1]]\<close>: below the shortest maturity it is the value at the
  shortest maturity, above the longest it is the value at the longest.
\<close>

theorem y_clamped:
  assumes "YieldCurve tn ms ys m = Inr c" and "maturities c \<noteq> []"
  shows "(\<exists>v. y c t = Inr v)
       \<and> y c t = y c (min (max t (hd (maturities c))) (last (maturities c)))
       \<and> (t < hd (maturities c) \<longrightarrow> y c t = y c (hd (maturities c)))
       \<and> (last (maturities c) < t \<longrightarrow> y c t = y c (last (maturities c)))"
proof -
  note d = YieldCurve_InrD [OF assms(1)]
  have ne: "ms \<noteq> []" using assms(2) d(2) by simp
  have le: "hd ms \<le> last ms" by (rule sorted_hd_le_last [OF d(6) ne])
  have key: "\<exists>g. \<forall>t. y c t = Inr (g (clamp_to ms t))"
    by (rule y_total [OF assms(1) ne])
  then obtain g where g: "\<And>t. y c t = Inr (g (clamp_to ms t))" by blast
  have a: "y c t = y c (clamp_to ms t)"
    using g [of t] g [of "clamp_to ms t"] clamp_to_idem [OF le, of t] by simp
  have b: "t < hd ms \<Longrightarrow> clamp_to ms t = clamp_to ms (hd ms)"
    using le by (simp add: clamp_to_def)
  have c: "last ms < t \<Longrightarrow> clamp_to ms t = clamp_to ms (last ms)"
    using le by (simp add: clamp_to_def)
  show ?thesis
    using g [of t] a b c g [of "hd ms"] g [of "last ms"] d(2)
    by (auto simp: clamp_to_def)
qed

text \<open>A quarter of a year and thirty years on a cubic curve over 1, 5 and 10 years.\<close>

theorem y_clamped_witness:
  "\<exists>c. YieldCurve [''1Y'', ''5Y'', ''10Y''] [1, 5, 10] [Fin 0.04, Fin 0.045, Fin 0.047] ''cubic''
          = Inr c \<and> y c 0.25 = y c 1 \<and> y c 30 = y c 10
          \<and> y c 0.25 = Inr (Fin 0.04) \<and> y c 30 = Inr (Fin 0.047)"
proof -
  let ?tn = "[''1Y'', ''5Y'', ''10Y'']"
  let ?ms = "[1, 5, 10 :: real]"
  let ?ys = "[Fin 0.04, Fin 0.045, Fin 0.047]"
  obtain c where c: "YieldCurve ?tn ?ms ?ys ''cubic'' = Inr c"
    using YieldCurve_ok [of ?ms ?ys "''cubic''" ?tn] by auto
  note d = YieldCurve_InrD(2,3) [OF c]
  have "y c 0.25 = y c 1" "y c 30 = y c 10"
    using y_clamped [OF c, of "0.25"] y_clamped [OF c, of 30] d by simp_all
  moreover have "y c 1 = Inr (Fin 0.04)" "y c 10 = Inr (Fin 0.047)"
    using y_linear_or_cubic_node [OF c, of 0] y_linear_or_cubic_node [OF c, of 2] d by simp_all
  ultimately show ?thesis using c by auto
qed

subsection \<open>Shocked curves\<close>

lemma shock_names:
  "strip (lower ''parallel'') = ''parallel''"
  "strip (lower ''steepen'') = ''steepen''"
  "strip (lower ''flatten'') = ''flatten''"
  "strip (lower ''twist'') = ''twist''"
  "strip (lower ''butterfly'') = ''butterfly''"
  by (simp_all add: strip_def lower_def lower_char_def isspace_def)

lemma apply_shock_names:
  "apply_shock c ''parallel'' bp tw = shock_parallel c bp"
  "apply_shock c ''steepen'' bp tw = shock_steepen c bp"
  "apply_shock c ''flatten'' bp tw = shock_flatten c bp"
  "apply_shock c ''twist'' bp tw = shock_twist c bp tw"
  "apply_shock c ''butterfly'' bp tw = shock_butterfly c bp"
  by (simp_all add: apply_shock_def shock_names)





lemma fl_NaN_right:
  "fl_add v NaN = NaN" "fl_mul v NaN = NaN" "fl_div v NaN = NaN" "fl_sub v NaN = NaN"
  by (cases v; simp add: fl_sub_def)+

lemma single_node_curve:
  assumes "YieldCurve tn [m0] [v] meth = Inr c"
  shows "meth \<noteq> ''cubic''"
    and "c = \<lparr>tenors = tn, maturities = [m0], yields = [v], method_name = meth, spline = None\<rparr>"
  using assms by (auto simp: YieldCurve_def CubicSpline_def split: if_splits)

lemma single_node_NaN:
  "meth \<noteq> ''cubic'' \<Longrightarrow> YieldCurve tn [m0] [NaN] meth =
     Inr \<lparr>tenors = tn, maturities = [m0], yields = [NaN], method_name = meth, spline = None\<rparr>"
  by (simp add: YieldCurve_def)

text \<open>
  Claim C9, as the code has it. A curve with a single node can only be a linear one (the
  spline fit refuses fewer than two nodes). On such a curve steepen, flatten, twist and
  butterfly raise nothing: the span is zero, the weight is \<open>0 / 0\<close>, and the result is
  the same curve with NaN as its yield.
\<close>

theorem span_shock_single_node:
  assumes "YieldCurve tn [m0] [v] meth = Inr c"
    and "s \<in> {''steepen'', ''flatten'', ''twist'', ''butterfly''}"
  shows "apply_shock c s bp tw = Inr (c\<lparr>yields := [NaN]\<rparr>)"
proof -
  note d = single_node_curve [OF assms(1)]
  note n = single_node_NaN [OF d(1), of tn m0]
  have 1: "shock_steepen c bp = Inr (c\<lparr>yields := [NaN]\<rparr>)"
    using n by (simp add: d(2) shock_steepen_def ramp_def fl_NaN_right)
  have 2: "shock_flatten c bp = Inr (c\<lparr>yields := [NaN]\<rparr>)"
    using n by (simp add: d(2) shock_flatten_def ramp_def fl_sub_def fl_NaN_right)
  have 3: "shock_twist c bp tw = Inr (c\<lparr>yields := [NaN]\<rparr>)"
    using n by (simp add: d(2) shock_twist_def ramp_def fl_sub_def fl_NaN_right Let_def)
  have 4: "shock_butterfly c bp = Inr (c\<lparr>yields := [NaN]\<rparr>)"
    using n by (simp add: d(2) shock_butterfly_def bell_def np_mean_def np_sum_def fl_sub_def fl_NaN_right)
  show ?thesis using assms(2) 1 2 3 4 by (auto simp: apply_shock_names)
qed

text \<open>The butterfly on the one-node curve at 0.04.\<close>

theorem span_shock_single_node_witness:
  "apply_shock \<lparr>tenors = [''1Y''], maturities = [1], yields = [Fin 0.04], method_name = ''linear'',
                 spline = None\<rparr> ''butterfly'' 50 True
   = Inr \<lparr>tenors = [''1Y''], maturities = [1], yields = [NaN], method_name = ''linear'',
          spline = None\<rparr>"
proof -
  have "YieldCurve [''1Y''] [1] [Fin 0.04] ''linear'' =
    Inr \<lparr>tenors = [''1Y''], maturities = [1], yields = [Fin 0.04], method_name = ''linear'',
         spline = None\<rparr>"
    by (simp add: YieldCurve_def)
  from span_shock_single_node [OF this, of "''butterfly''" 50 True] show ?thesis by simp
qed

text \<open>
  Claim C9 as stated fails: the one-node curve constructs, and steepening it returns a
  curve instead of raising.
\<close>

theorem steepen_single_node_returns_NaN:
  "YieldCurve [''1Y''] [1] [Fin 0.04] ''linear'' =
     Inr \<lparr>tenors = [''1Y''], maturities = [1], yields = [Fin 0.04], method_name = ''linear'',
          spline = None\<rparr> \<and>
   apply_shock \<lparr>tenors = [''1Y''], maturities = [1], yields = [Fin 0.04], method_name = ''linear'',
                 spline = None\<rparr> ''steepen'' 50 True
   = Inr \<lparr>tenors = [''1Y''], maturities = [1], yields = [NaN], method_name = ''linear'',
          spline = None\<rparr>"
  by (simp add: YieldCurve_def apply_shock_names shock_steepen_def ramp_def fl_NaN_right)















end
